theory Spec2Isabelle
  imports Complex_Main "HOL-Library.Multiset"
begin

section \<open>Percentile tables from powerlifting competition records\<close>

text \<open>
  A shallow embedding of \<^verbatim>\<open>scripts/generate_powerlifting_percentiles.py\<close>.
  Python floats are modelled as rationals: every value is finite and arithmetic is exact,
  so NaN, the infinities and binary rounding are outside the model. Python integers are
  \<^typ>\<open>int\<close>, strings are \<^typ>\<open>string\<close>, exceptions are values of \<open>py_error\<close>.
\<close>

subsection \<open>Configuration constants\<close>

definition MALE_WEIGHT_CLASSES :: "int list" where
  "MALE_WEIGHT_CLASSES = [59, 66, 74, 83, 93, 105, 120, 140]"

definition FEMALE_WEIGHT_CLASSES :: "int list" where
  "FEMALE_WEIGHT_CLASSES = [47, 52, 57, 63, 69, 76, 84, 100]"

definition AGE_BRACKETS :: "(int \<times> int \<times> string) list" where
  "AGE_BRACKETS =
     [(0, 23, ''junior''), (24, 39, ''open''), (40, 49, ''masters_40''),
      (50, 59, ''masters_50''), (60, 69, ''masters_60''), (70, 999, ''masters_70'')]"

definition PERCENTILES :: "int list" where
  "PERCENTILES = [5, 10, 20, 30, 40, 50, 60, 70, 80, 90, 95, 99]"

text \<open>The literal \<^verbatim>\<open>["squat", "bench", "deadlift"]\<close> iterated by both statistics loops.\<close>

definition LIFTS :: "string list" where
  "LIFTS = [''squat'', ''bench'', ''deadlift'']"

subsection \<open>Python primitives used by the script\<close>

datatype py_error = IndexError | AttributeError

text \<open>List indexing \<^verbatim>\<open>xs[i]\<close>: a negative index counts from the end, an index out of
  range raises.\<close>

definition py_index :: "'a list \<Rightarrow> int \<Rightarrow> py_error + 'a" where
  "py_index xs i =
     (if 0 \<le> i \<and> i < int (length xs) then Inr (xs ! nat i)
      else if i < 0 \<and> - int (length xs) \<le> i then Inr (xs ! nat (int (length xs) + i))
      else Inl IndexError)"

text \<open>\<^verbatim>\<open>int(x)\<close> on a float truncates towards zero.\<close>

definition py_int :: "rat \<Rightarrow> int" where
  "py_int x = (if 0 \<le> x then \<lfloor>x\<rfloor> else \<lceil>x\<rceil>)"

text \<open>\<^verbatim>\<open>str(n)\<close> on an integer: its decimal numeral.\<close>

fun str_nat :: "nat \<Rightarrow> string" where
  "str_nat n =
     (if n < 10 then [''0123456789'' ! n]
      else str_nat (n div 10) @ [''0123456789'' ! (n mod 10)])"

declare str_nat.simps [simp del]

definition str_int :: "int \<Rightarrow> string" where
  "str_int i = (if i < 0 then CHR ''-'' # str_nat (nat (- i)) else str_nat (nat i))"

text \<open>\<^verbatim>\<open>s.lower()\<close>, on ASCII letters.\<close>

definition lower_char :: "char \<Rightarrow> char" where
  "lower_char c =
     (let n = (of_char c :: nat) in if 65 \<le> n \<and> n \<le> 90 then char_of (n + 32) else c)"

definition lower :: "string \<Rightarrow> string" where
  "lower s = map lower_char s"

text \<open>\<^verbatim>\<open>s.startswith('-')\<close>.\<close>

definition startswith_minus :: "string \<Rightarrow> bool" where
  "startswith_minus s = (case s of [] \<Rightarrow> False | c # _ \<Rightarrow> c = CHR ''-'')"

text \<open>\<^verbatim>\<open>round(x, 1)\<close>: the nearest multiple of one tenth, a tie going to the even
  multiple. Here the tie is decided on the exact value; the script rounds a binary float,
  which is never exactly on such a tie, so at a value ending in 5 hundredths the emitted
  number can differ from this one by a tenth. No property below depends on the rounded
  values.\<close>

definition py_round1 :: "rat \<Rightarrow> rat" where
  "py_round1 x =
     (let y = x * 10; f = \<lfloor>y\<rfloor>; d = y - of_int f
      in of_int (if d < 1 / 2 then f
                 else if 1 / 2 < d then f + 1
                 else if even f then f else f + 1) / 10)"

text \<open>
  \<^verbatim>\<open>float(s)\<close> is a builtin: the functions below take it as a parameter
  \<open>pfloat\<close>, where \<open>None\<close> stands for \<^verbatim>\<open>ValueError\<close>. The instance
  \<open>decimal_float\<close> reads the plain decimal numerals (an optional minus sign, digits,
  an optional point and digits), on which it agrees with the builtin up to binary rounding,
  and rejects every other string; it is used to run the model on concrete rows.
\<close>

definition digit_val :: "char \<Rightarrow> nat option" where
  "digit_val c =
     (let n = (of_char c :: nat) in if 48 \<le> n \<and> n \<le> 57 then Some (n - 48) else None)"

fun digits_val :: "string \<Rightarrow> nat \<Rightarrow> nat option" where
  "digits_val [] acc = Some acc"
| "digits_val (c # cs) acc =
     (case digit_val c of None \<Rightarrow> None | Some d \<Rightarrow> digits_val cs (10 * acc + d))"

definition decimal_float :: "string \<Rightarrow> rat option" where
  "decimal_float s =
     (let neg = startswith_minus s;
          body = (if neg then tl s else s);
          ip = takeWhile (\<lambda>c. c \<noteq> CHR ''.'') body;
          fp = (case dropWhile (\<lambda>c. c \<noteq> CHR ''.'') body of [] \<Rightarrow> [] | _ # f \<Rightarrow> f)
      in if ip = [] \<and> fp = [] then None
         else case digits_val ip 0 of
                None \<Rightarrow> None
              | Some a \<Rightarrow>
                  (case digits_val fp 0 of
                     None \<Rightarrow> None
                   | Some b \<Rightarrow>
                       Some ((if neg then - 1 else 1) *
                             (of_nat a + of_nat b / 10 ^ length fp))))"

subsection \<open>Bucket keys\<close>

text \<open>The loop of \<^verbatim>\<open>get_weight_class\<close>: the first class the bodyweight fits in.\<close>

fun first_weight_class :: "rat \<Rightarrow> int list \<Rightarrow> string option" where
  "first_weight_class bodyweight [] = None"
| "first_weight_class bodyweight (wc # rest) =
     (if bodyweight \<le> of_int wc then Some (str_int wc)
      else first_weight_class bodyweight rest)"

definition get_weight_class :: "rat \<Rightarrow> bool \<Rightarrow> string" where
  "get_weight_class bodyweight is_male =
     (let classes = (if is_male then MALE_WEIGHT_CLASSES else FEMALE_WEIGHT_CLASSES)
      in case first_weight_class bodyweight classes of
           Some label \<Rightarrow> label
         | None \<Rightarrow> str_int (last classes) @ ''+'')"

fun first_age_bracket :: "rat \<Rightarrow> (int \<times> int \<times> string) list \<Rightarrow> string option" where
  "first_age_bracket age [] = None"
| "first_age_bracket age ((min_age, max_age, bracket) # rest) =
     (if of_int min_age \<le> age \<and> age \<le> of_int max_age then Some bracket
      else first_age_bracket age rest)"

definition get_age_bracket :: "rat \<Rightarrow> string option" where
  "get_age_bracket age = first_age_bracket age AGE_BRACKETS"

subsection \<open>Percentile interpolation\<close>

definition calculate_percentile :: "rat list \<Rightarrow> int \<Rightarrow> py_error + rat" where
  "calculate_percentile vals percentile =
     (if vals = [] then Inr 0
      else
        let sorted_values = sort vals;
            index = of_int ((int (length sorted_values) - 1) * percentile) / 100;
            lower = py_int index;
            upper = lower + 1
        in if upper \<ge> int (length sorted_values) then py_index sorted_values (- 1)
           else
             let weight = index - of_int lower
             in case py_index sorted_values lower of
                  Inl e \<Rightarrow> Inl e
                | Inr a \<Rightarrow>
                    (case py_index sorted_values upper of
                       Inl e \<Rightarrow> Inl e
                     | Inr b \<Rightarrow> Inr (a * (1 - weight) + b * weight)))"

subsection \<open>Rows and the aggregation pass\<close>

text \<open>
  A row of \<^verbatim>\<open>csv.DictReader\<close> maps column names to fields; a field of a row
  shorter than the header is Python's \<^verbatim>\<open>None\<close>, here the inner \<open>None\<close>.
  \<^verbatim>\<open>row.get(k, '')\<close> gives the empty string for a column the file does not have.
\<close>

type_synonym row = "string \<rightharpoonup> string option"

definition row_get :: "row \<Rightarrow> string \<Rightarrow> string option" where
  "row_get r k = (case r k of None \<Rightarrow> Some [] | Some v \<Rightarrow> v)"

text \<open>
  \<^verbatim>\<open>defaultdict(list)\<close> keyed by lift; the nested default dictionaries are keyed by
  weight class and by age bracket. The two outer dictionaries have exactly the keys
  \<^verbatim>\<open>"male"\<close> and \<^verbatim>\<open>"female"\<close> and are only indexed by one of them, so they
  are total functions of the sex key.
\<close>

type_synonym lifts = "string \<rightharpoonup> rat list"

record agg =
  data :: "string \<Rightarrow> string \<rightharpoonup> (string \<rightharpoonup> lifts)"
  all_ages_data :: "string \<Rightarrow> string \<rightharpoonup> lifts"
  row_count :: nat
  included_count :: nat

definition init_agg :: agg where
  "init_agg =
     \<lparr>data = (\<lambda>_. Map.empty), all_ages_data = (\<lambda>_. Map.empty),
      row_count = 0, included_count = 0\<rparr>"

text \<open>Reading a default dictionary yields the default for a key not yet present.\<close>

definition dd_get :: "('k \<rightharpoonup> 'v) \<Rightarrow> 'k \<Rightarrow> 'v \<Rightarrow> 'v" where
  "dd_get m k dflt = (case m k of None \<Rightarrow> dflt | Some v \<Rightarrow> v)"

definition dd_append :: "lifts \<Rightarrow> string \<Rightarrow> rat \<Rightarrow> lifts" where
  "dd_append m lift v = m(lift \<mapsto> dd_get m lift [] @ [v])"

definition add_all_ages ::
  "(string \<Rightarrow> string \<rightharpoonup> lifts) \<Rightarrow> string \<Rightarrow> string \<Rightarrow> string \<Rightarrow> rat \<Rightarrow>
   (string \<Rightarrow> string \<rightharpoonup> lifts)" where
  "add_all_ages d sex_key weight_class lift v =
     d(sex_key := (d sex_key)(weight_class \<mapsto>
         dd_append (dd_get (d sex_key) weight_class Map.empty) lift v))"

definition add_data ::
  "(string \<Rightarrow> string \<rightharpoonup> (string \<rightharpoonup> lifts)) \<Rightarrow> string \<Rightarrow> string \<Rightarrow> string \<Rightarrow> string \<Rightarrow>
   rat \<Rightarrow> (string \<Rightarrow> string \<rightharpoonup> (string \<rightharpoonup> lifts))" where
  "add_data d sex_key weight_class age_bracket lift v =
     (let by_bracket = dd_get (d sex_key) weight_class Map.empty
      in d(sex_key := (d sex_key)(weight_class \<mapsto>
           by_bracket(age_bracket \<mapsto>
             dd_append (dd_get by_bracket age_bracket Map.empty) lift v))))"

text \<open>
  One of the three blocks that store a lift: the field must be non-empty, not start with a
  minus sign, parse, and be positive. The pair carries \<^verbatim>\<open>lifts_added\<close>.
\<close>

definition store_lift ::
  "(string \<Rightarrow> rat option) \<Rightarrow> string \<Rightarrow> string \<Rightarrow> string option \<Rightarrow> string \<Rightarrow>
   string option \<Rightarrow> agg \<times> bool \<Rightarrow> agg \<times> bool" where
  "store_lift pfloat sex_key weight_class age_bracket lift field sl =
     (case field of
        None \<Rightarrow> sl
      | Some s \<Rightarrow>
          if s \<noteq> [] \<and> \<not> startswith_minus s then
            (case pfloat s of
               None \<Rightarrow> sl
             | Some v \<Rightarrow>
                 if 0 < v then
                   (let st1 = (fst sl)\<lparr>all_ages_data :=
                                add_all_ages (all_ages_data (fst sl)) sex_key weight_class lift v\<rparr>;
                        st2 = (case age_bracket of
                                 None \<Rightarrow> st1
                               | Some ab \<Rightarrow>
                                   if ab \<noteq> [] then
                                     st1\<lparr>data := add_data (data st1) sex_key weight_class ab lift v\<rparr>
                                   else st1)
                    in (st2, True))
                 else sl)
          else sl)"

text \<open>The age bracket of a row: optional, absent when the field is empty or does not
  parse.\<close>

definition row_age_bracket :: "(string \<Rightarrow> rat option) \<Rightarrow> row \<Rightarrow> string option" where
  "row_age_bracket pfloat r =
     (case row_get r ''Age'' of
        None \<Rightarrow> None
      | Some age_str \<Rightarrow>
          if age_str = [] then None
          else (case pfloat age_str of None \<Rightarrow> None | Some age \<Rightarrow> get_age_bracket age))"

text \<open>
  The body of the row loop. \<open>Inr\<close> of the unchanged state is \<^verbatim>\<open>continue\<close>
  (also through the outer \<^verbatim>\<open>except (ValueError, KeyError)\<close>);
  \<^verbatim>\<open>.lower()\<close> on a \<^verbatim>\<open>None\<close> field raises \<^verbatim>\<open>AttributeError\<close>,
  which nothing catches.
\<close>

definition process_row :: "(string \<Rightarrow> rat option) \<Rightarrow> agg \<Rightarrow> row \<Rightarrow> py_error + agg" where
  "process_row pfloat st0 r =
     (let st = st0\<lparr>row_count := row_count st0 + 1\<rparr>
      in case row_get r ''BodyweightKg'' of
           None \<Rightarrow> Inr st
         | Some bodyweight_str \<Rightarrow>
             if bodyweight_str = [] then Inr st
             else
               (case pfloat bodyweight_str of
                  None \<Rightarrow> Inr st
                | Some bodyweight \<Rightarrow>
                    (case row_get r ''Sex'' of
                       None \<Rightarrow> Inl AttributeError
                     | Some sex_field \<Rightarrow>
                         let sex = lower sex_field
                         in if sex \<noteq> ''m'' \<and> sex \<noteq> ''f'' then Inr st
                            else
                              let is_male = (sex = ''m'');
                                  sex_key = (if is_male then ''male'' else ''female'');
                                  weight_class = get_weight_class bodyweight is_male
                              in if weight_class = [] then Inr st
                                 else
                                   let age_bracket = row_age_bracket pfloat r;
                                       squat = row_get r ''Best3SquatKg'';
                                       bench = row_get r ''Best3BenchKg'';
                                       deadlift = row_get r ''Best3DeadliftKg'';
                                       sl1 = store_lift pfloat sex_key weight_class age_bracket
                                               ''squat'' squat (st, False);
                                       sl2 = store_lift pfloat sex_key weight_class age_bracket
                                               ''bench'' bench sl1;
                                       sl3 = store_lift pfloat sex_key weight_class age_bracket
                                               ''deadlift'' deadlift sl2
                                   in Inr (if snd sl3
                                           then (fst sl3)\<lparr>included_count :=
                                                   included_count (fst sl3) + 1\<rparr>
                                           else fst sl3))))"

fun process_rows :: "(string \<Rightarrow> rat option) \<Rightarrow> agg \<Rightarrow> row list \<Rightarrow> py_error + agg" where
  "process_rows pfloat st [] = Inr st"
| "process_rows pfloat st (r # rs) =
     (case process_row pfloat st r of
        Inl e \<Rightarrow> Inl e
      | Inr st' \<Rightarrow> process_rows pfloat st' rs)"

subsection \<open>The result\<close>

text \<open>The value handed to \<^verbatim>\<open>json.dump\<close>. A dictionary keeps its keys in insertion
  order; assigning to a key that is present replaces its value in place.\<close>

datatype json =
    JInt int
  | JNum rat
  | JStr string
  | JList "json list"
  | JDict "(string \<times> json) list"

fun dict_set :: "(string \<times> 'v) list \<Rightarrow> string \<Rightarrow> 'v \<Rightarrow> (string \<times> 'v) list" where
  "dict_set [] k v = [(k, v)]"
| "dict_set ((k', v') # d) k v = (if k' = k then (k, v) # d else (k', v') # dict_set d k v)"

text \<open>The dictionary comprehension over \<^verbatim>\<open>PERCENTILES\<close>.\<close>

fun percentiles_dict ::
  "rat list \<Rightarrow> int list \<Rightarrow> (string \<times> json) list \<Rightarrow> py_error + (string \<times> json) list" where
  "percentiles_dict vals [] acc = Inr acc"
| "percentiles_dict vals (p # ps) acc =
     (case calculate_percentile vals p of
        Inl e \<Rightarrow> Inl e
      | Inr x \<Rightarrow> percentiles_dict vals ps (dict_set acc (str_int p) (JNum (py_round1 x))))"

text \<open>The loop over the lifts, with the minimum sample size of its call site (50 for all
  ages, 30 for an age bracket). Reading \<open>m\<close> is a read of a \<^verbatim>\<open>defaultdict(list)\<close>.\<close>

fun lift_stats ::
  "nat \<Rightarrow> lifts \<Rightarrow> string list \<Rightarrow> (string \<times> json) list \<Rightarrow> py_error + (string \<times> json) list" where
  "lift_stats min_n m [] acc = Inr acc"
| "lift_stats min_n m (lift # ls) acc =
     (let vals = dd_get m lift []
      in if min_n \<le> length vals then
           (case percentiles_dict vals PERCENTILES [] of
              Inl e \<Rightarrow> Inl e
            | Inr pd \<Rightarrow>
                lift_stats min_n m ls
                  (dict_set acc lift
                     (JDict [(''count'', JInt (int (length vals))), (''percentiles'', JDict pd)])))
         else lift_stats min_n m ls acc)"

text \<open>The loop over the age brackets; \<open>by_bracket\<close> is \<open>None\<close> when the weight class
  key is not in \<^verbatim>\<open>data[sex_key]\<close>.\<close>

fun by_age_stats ::
  "(string \<rightharpoonup> lifts) option \<Rightarrow> string list \<Rightarrow> (string \<times> json) list \<Rightarrow>
   py_error + (string \<times> json) list" where
  "by_age_stats by_bracket [] acc = Inr acc"
| "by_age_stats by_bracket (age_bracket # rest) acc =
     (case by_bracket of
        None \<Rightarrow> by_age_stats by_bracket rest acc
      | Some bm \<Rightarrow>
          (case bm age_bracket of
             None \<Rightarrow> by_age_stats by_bracket rest acc
           | Some m \<Rightarrow>
               (case lift_stats 30 m LIFTS [] of
                  Inl e \<Rightarrow> Inl e
                | Inr age_data \<Rightarrow>
                    by_age_stats by_bracket rest
                      (if age_data \<noteq> [] then dict_set acc age_bracket (JDict age_data)
                       else acc))))"

text \<open>The keys tried for one sex, in order: each class and the same class with a plus.\<close>

definition weight_class_keys :: "int list \<Rightarrow> string list" where
  "weight_class_keys classes = concat (map (\<lambda>wc. [str_int wc, str_int wc @ ''+'']) classes)"

fun weight_class_stats ::
  "agg \<Rightarrow> string \<Rightarrow> string list \<Rightarrow> (string \<times> json) list \<Rightarrow> py_error + (string \<times> json) list" where
  "weight_class_stats st sex_key [] acc = Inr acc"
| "weight_class_stats st sex_key (weight_class_key # rest) acc =
     (case all_ages_data st sex_key weight_class_key of
        None \<Rightarrow> weight_class_stats st sex_key rest acc
      | Some m \<Rightarrow>
          (case lift_stats 50 m LIFTS [] of
             Inl e \<Rightarrow> Inl e
           | Inr all_ages \<Rightarrow>
               (case by_age_stats (data st sex_key weight_class_key)
                       (map (\<lambda>ab. snd (snd ab)) AGE_BRACKETS) [] of
                  Inl e \<Rightarrow> Inl e
                | Inr by_age \<Rightarrow>
                    weight_class_stats st sex_key rest
                      (if all_ages \<noteq> [] then
                         dict_set acc weight_class_key
                           (JDict [(''all_ages'', JDict all_ages), (''by_age'', JDict by_age)])
                       else acc))))"

definition build_result :: "agg \<Rightarrow> py_error + json" where
  "build_result st =
     (case weight_class_stats st ''male'' (weight_class_keys MALE_WEIGHT_CLASSES) [] of
        Inl e \<Rightarrow> Inl e
      | Inr male \<Rightarrow>
          (case weight_class_stats st ''female'' (weight_class_keys FEMALE_WEIGHT_CLASSES) [] of
             Inl e \<Rightarrow> Inl e
           | Inr female \<Rightarrow>
               Inr (JDict
                 [(''metadata'', JDict
                     [(''source'', JStr ''OpenPowerlifting''),
                      (''url'', JStr ''https://www.openpowerlifting.org''),
                      (''lifter_count'', JInt (int (included_count st))),
                      (''description'', JStr ''Percentile data from competitive powerlifting meets''),
                      (''units'', JStr ''kg''),
                      (''percentiles'', JList (map JInt PERCENTILES))]),
                  (''male'', JDict male),
                  (''female'', JDict female)])))"

definition process_data :: "(string \<Rightarrow> rat option) \<Rightarrow> row list \<Rightarrow> py_error + json" where
  "process_data pfloat rows =
     (case process_rows pfloat init_agg rows of
        Inl e \<Rightarrow> Inl e
      | Inr st \<Rightarrow> build_result st)"

text \<open>Reading a key of a dictionary in the result.\<close>

fun jget :: "json \<Rightarrow> string \<Rightarrow> json option" where
  "jget (JDict d) k = map_of d k"
| "jget _ k = None"

subsection \<open>Closed forms of the statistics loops\<close>

text \<open>The entries a loop adds to a fresh dictionary: one for each key, in order, for which
  the loop body produces a value.\<close>

definition entries :: "('k \<Rightarrow> 'v option) \<Rightarrow> 'k list \<Rightarrow> ('k \<times> 'v) list" where
  "entries g ks = concat (map (\<lambda>k. case g k of None \<Rightarrow> [] | Some v \<Rightarrow> [(k, v)]) ks)"

definition percentile_entries :: "rat list \<Rightarrow> (string \<times> json) list" where
  "percentile_entries vals =
     map (\<lambda>p. (str_int p, JNum (py_round1 (projr (calculate_percentile vals p))))) PERCENTILES"

definition stat_entry :: "rat list \<Rightarrow> json" where
  "stat_entry vals =
     JDict [(''count'', JInt (int (length vals))),
            (''percentiles'', JDict (percentile_entries vals))]"

definition stats_list :: "nat \<Rightarrow> lifts \<Rightarrow> (string \<times> json) list" where
  "stats_list min_n m =
     entries (\<lambda>lift. if min_n \<le> length (dd_get m lift [])
                      then Some (stat_entry (dd_get m lift [])) else None) LIFTS"

definition by_age_list :: "(string \<rightharpoonup> lifts) option \<Rightarrow> (string \<times> json) list" where
  "by_age_list by_bracket =
     entries (\<lambda>ab. case by_bracket of
                      None \<Rightarrow> None
                    | Some bm \<Rightarrow>
                        (case bm ab of
                           None \<Rightarrow> None
                         | Some m \<Rightarrow>
                             if stats_list 30 m \<noteq> [] then Some (JDict (stats_list 30 m))
                             else None))
       (map (\<lambda>ab. snd (snd ab)) AGE_BRACKETS)"

definition wc_list :: "agg \<Rightarrow> string \<Rightarrow> string list \<Rightarrow> (string \<times> json) list" where
  "wc_list st sex_key keys =
     entries (\<lambda>k. case all_ages_data st sex_key k of
                     None \<Rightarrow> None
                   | Some m \<Rightarrow>
                       if stats_list 50 m \<noteq> [] then
                         Some (JDict [(''all_ages'', JDict (stats_list 50 m)),
                                      (''by_age'', JDict (by_age_list (data st sex_key k)))])
                       else None) keys"

subsection \<open>Reading the aggregated lists and the result\<close>

text \<open>\<^verbatim>\<open>all_ages_data[sex_key][wc][lift]\<close> and
  \<^verbatim>\<open>data[sex_key][wc][age_bracket][lift]\<close>, read as the default dictionaries are.\<close>

definition all_ages_values :: "agg \<Rightarrow> string \<Rightarrow> string \<Rightarrow> string \<Rightarrow> rat list" where
  "all_ages_values st sex_key wc lift =
     dd_get (dd_get (all_ages_data st sex_key) wc Map.empty) lift []"

definition data_values :: "agg \<Rightarrow> string \<Rightarrow> string \<Rightarrow> string \<Rightarrow> string \<Rightarrow> rat list" where
  "data_values st sex_key wc age_bracket lift =
     dd_get (dd_get (dd_get (data st sex_key) wc Map.empty) age_bracket Map.empty) lift []"

text \<open>The classes iterated for a sex key, as the result loop chooses them.\<close>

definition sex_classes :: "string \<Rightarrow> int list" where
  "sex_classes sex_key =
     (if sex_key = ''male'' then MALE_WEIGHT_CLASSES else FEMALE_WEIGHT_CLASSES)"

text \<open>Following a path of keys into the result; nothing is found in a run that raised.\<close>

fun jpath :: "json \<Rightarrow> string list \<Rightarrow> json option" where
  "jpath j [] = Some j"
| "jpath j (k # ks) = (case jget j k of None \<Rightarrow> None | Some j' \<Rightarrow> jpath j' ks)"

definition result_at :: "py_error + json \<Rightarrow> string list \<Rightarrow> json option" where
  "result_at res path = (case res of Inl e \<Rightarrow> None | Inr out \<Rightarrow> jpath out path)"

text \<open>The keys of a dictionary of the result, in order.\<close>

fun jkeys :: "json \<Rightarrow> string list" where
  "jkeys (JDict d) = map fst d"
| "jkeys _ = []"

subsection \<open>The shape of the result\<close>







subsection \<open>Conditions named by the specification\<close>

text \<open>The age field of a row is missing (absent, \<^verbatim>\<open>None\<close> or empty) or does not
  parse.\<close>

definition age_missing_or_unparseable :: "(string \<Rightarrow> rat option) \<Rightarrow> row \<Rightarrow> bool" where
  "age_missing_or_unparseable pfloat r =
     (case row_get r ''Age'' of None \<Rightarrow> True | Some s \<Rightarrow> s = [] \<or> pfloat s = None)"

subsection \<open>A concrete run\<close>

text \<open>A male lifter of 82.5 kg, aged 30, with a squat of 200 kg, a failed bench (a negative
  entry) and no deadlift; and the state the aggregation pass reaches after \<open>n\<close> such rows.\<close>

definition example_row :: row where
  "example_row =
     [''BodyweightKg'' \<mapsto> Some ''82.5'', ''Sex'' \<mapsto> Some ''M'', ''Age'' \<mapsto> Some ''30'',
      ''Best3SquatKg'' \<mapsto> Some ''200'', ''Best3BenchKg'' \<mapsto> Some ''-150'',
      ''Best3DeadliftKg'' \<mapsto> Some '''']"

definition example_agg :: "nat \<Rightarrow> agg" where
  "example_agg n =
     \<lparr>data = (\<lambda>_. Map.empty)
        (''male'' := [''83'' \<mapsto> [''open'' \<mapsto> [''squat'' \<mapsto> replicate n 200]]]),
      all_ages_data = (\<lambda>_. Map.empty)
        (''male'' := [''83'' \<mapsto> [''squat'' \<mapsto> replicate n 200]]),
      row_count = n, included_count = n\<rparr>"


section \<open>Properties\<close>

subsection \<open>Percentile interpolation\<close>


lemma pct_bounds: "p \<in> set PERCENTILES \<Longrightarrow> 5 \<le> p \<and> p \<le> 99"
  by (auto simp: PERCENTILES_def)

lemma py_index_last: "xs \<noteq> [] \<Longrightarrow> py_index xs (- 1) = Inr (last xs)"
  by (cases xs rule: rev_cases) (simp_all add: py_index_def Let_def nth_append)

lemma py_index_nat: "n < length xs \<Longrightarrow> py_index xs (int n) = Inr (xs ! n)"
  by (simp add: py_index_def Let_def)

lemma index_floor_bounds:
  assumes "2 \<le> N" "5 \<le> p" "p \<le> 99"
  shows "0 \<le> \<lfloor>(of_int ((int N - 1) * p) / 100 :: rat)\<rfloor>"
    and "\<lfloor>(of_int ((int N - 1) * p) / 100 :: rat)\<rfloor> + 1 < int N"
proof -
  have nn: "0 \<le> (int N - 1) * p" using assms by simp
  then have "0 \<le> (of_int ((int N - 1) * p) :: rat)" by (simp only: of_int_0_le_iff)
  then have "0 \<le> (of_int ((int N - 1) * p) / 100 :: rat)" by (rule divide_nonneg_nonneg) simp
  then show "0 \<le> \<lfloor>(of_int ((int N - 1) * p) / 100 :: rat)\<rfloor>" by (simp only: zero_le_floor)
  have "(int N - 1) * p < (int N - 1) * 100"
    using assms by (intro mult_strict_left_mono) auto
  then have "(of_int ((int N - 1) * p) :: rat) < of_int ((int N - 1) * 100)"
    by (simp only: of_int_less_iff)
  then have "(of_int ((int N - 1) * p) / 100 :: rat) < of_int ((int N - 1) * 100) / 100"
    by (rule divide_strict_right_mono) simp
  also have "(of_int ((int N - 1) * 100) / 100 :: rat) = of_int (int N - 1)"
    by simp
  finally have "(of_int ((int N - 1) * p) / 100 :: rat) < of_int (int N - 1)" .
  then have "\<lfloor>(of_int ((int N - 1) * p) / 100 :: rat)\<rfloor> < int N - 1"
    by (simp add: floor_less_iff)
  then show "\<lfloor>(of_int ((int N - 1) * p) / 100 :: rat)\<rfloor> + 1 < int N" by simp
qed

lemma calculate_percentile_eq:
  assumes ne: "vals \<noteq> []" and p: "p \<in> set PERCENTILES"
  shows "calculate_percentile vals p =
     Inr (let s = sort vals; N = length vals;
              i = rat_of_int (int (N - 1) * p) / 100;
              lower = nat \<lfloor>i\<rfloor>;
              w = i - of_nat lower
          in if lower + 1 > N - 1 then last s
             else s ! lower * (1 - w) + s ! (lower + 1) * w)"
proof (cases "length vals = 1")
  case True
  then have "sort vals \<noteq> []" using ne by (metis length_0_conv length_sort)
  then show ?thesis using True ne
    by (simp add: calculate_percentile_def py_int_def py_index_last Let_def)
next
  case False
  define N where "N = length vals"
  have "length vals \<noteq> 0" using ne by simp
  then have N2: "2 \<le> N" using False unfolding N_def by arith
  define i :: rat where "i = of_int ((int N - 1) * p) / 100"
  have pb: "5 \<le> p" "p \<le> 99" using pct_bounds[OF p] by auto
  have f0: "0 \<le> \<lfloor>i\<rfloor>" and f1: "\<lfloor>i\<rfloor> + 1 < int N"
    unfolding i_def using index_floor_bounds[OF N2 pb] by auto
  have i0: "0 \<le> i" using f0 by simp
  have Nm: "int (N - 1) = int N - 1" using N2 by simp
  define l where "l = nat \<lfloor>i\<rfloor>"
  have l1: "\<lfloor>i\<rfloor> = int l" using f0 unfolding l_def by (simp only: nat_0_le)
  have l2: "l + 1 < N" using f1 l1 by linarith
  note l = l1 l2
  have a: "py_index (sort vals) (int l) = Inr (sort vals ! l)"
    using l by (intro py_index_nat) (simp add: N_def)
  have b: "py_index (sort vals) (int l + 1) = Inr (sort vals ! (l + 1))"
    using l py_index_nat[of "l + 1" "sort vals"] by (simp add: N_def add.commute)
  have pyi: "py_int i = int l" using i0 l1 by (simp add: py_int_def)
  have nle: "\<not> int N \<le> int l + 1" using l2 by linarith
  have lhs: "calculate_percentile vals p =
      Inr (sort vals ! l * (1 - (i - of_int (int l))) + sort vals ! (l + 1) * (i - of_int (int l)))"
    unfolding calculate_percentile_def Let_def length_sort N_def[symmetric] i_def[symmetric] pyi
    using ne nle a b by simp
  show ?thesis
    unfolding lhs Let_def N_def[symmetric] Nm i_def[symmetric] l_def[symmetric]
    using l2 by auto
qed


lemma calculate_percentile_returns:
  assumes "vals \<noteq> []" and "p \<in> set PERCENTILES"
  shows "\<exists>x. calculate_percentile vals p = Inr x"
  using calculate_percentile_eq[OF assms] by blast

text \<open>
  Claim C1. For a non-empty list and a percentile \<open>p\<close> of the configured set,
  \<open>calculate_percentile\<close> returns (without raising) the linear interpolation over the
  ascending-sorted values at the fractional index \<open>i = (N - 1) * p / 100\<close>: with
  \<open>lower\<close> the floor of \<open>i\<close> and \<open>w = i - lower\<close> it is
  \<open>sorted[lower] * (1 - w) + sorted[lower + 1] * w\<close>, and it is the last sorted element
  when \<open>lower + 1\<close> exceeds \<open>N - 1\<close>.
\<close>

theorem calculate_percentile_interpolates:
  assumes "vals \<noteq> []" and "p \<in> set PERCENTILES"
  shows "calculate_percentile vals p =
     Inr (let s = sort vals; N = length vals;
              i = rat_of_int (int (N - 1) * p) / 100;
              lower = nat \<lfloor>i\<rfloor>;
              w = i - of_nat lower
          in if lower + 1 > N - 1 then last s
             else s ! lower * (1 - w) + s ! (lower + 1) * w)"
  using assms by (rule calculate_percentile_eq)

theorem calculate_percentile_interpolates_witness:
  "[3, 1, 2, 10 :: rat] \<noteq> [] \<and> 95 \<in> set PERCENTILES \<and>
   calculate_percentile [3, 1, 2, 10] 95 = Inr (179 / 20)"
proof -
  have a: "[3, 1, 2, 10 :: rat] \<noteq> []" by simp
  have b: "95 \<in> set PERCENTILES" by (simp add: PERCENTILES_def)
  have c: "(let s = sort [3, 1, 2, 10 :: rat]; N = length [3, 1, 2, 10 :: rat];
                i = rat_of_int (int (N - 1) * 95) / 100;
                lower = nat \<lfloor>i\<rfloor>;
                w = i - of_nat lower
            in if lower + 1 > N - 1 then last s
               else s ! lower * (1 - w) + s ! (lower + 1) * w) = 179 / 20"
    by code_simp
  show ?thesis
    using a b calculate_percentile_interpolates[OF a b] unfolding c by simp
qed

text \<open>
  Claim C8. \<open>calculate_percentile\<close> is invariant under permutation of its value list:
  two lists with the same elements, in any order, give the same result for every percentile.
\<close>

theorem calculate_percentile_permutation:
  assumes "mset xs = mset ys"
  shows "calculate_percentile xs p = calculate_percentile ys p"
proof -
  have s: "sort xs = sort ys"
    using assms by (metis sorted_list_of_multiset_mset)
  have e: "(xs = []) = (ys = [])"
    using assms by (metis mset_zero_iff)
  show ?thesis
    unfolding calculate_percentile_def s e ..
qed

theorem calculate_percentile_permutation_witness:
  "mset [3, 1, 2, 10 :: rat] = mset [10, 2, 3, 1] \<and>
   calculate_percentile [3, 1, 2, 10] 95 = calculate_percentile [10, 2, 3, 1] 95 \<and>
   calculate_percentile [10, 2, 3, 1] 95 = Inr (179 / 20)"
proof -
  have a: "mset [3, 1, 2, 10 :: rat] = mset [10, 2, 3, 1]" by simp
  have b: "calculate_percentile [10, 2, 3, 1] 95 = Inr (179 / 20)"
    by code_simp
  show ?thesis
    using a b calculate_percentile_permutation[OF a, of 95] by simp
qed

text \<open>
  Claim C9. On the empty list \<open>calculate_percentile\<close> returns zero for every percentile,
  and does not raise.
\<close>

theorem calculate_percentile_empty: "calculate_percentile [] p = Inr 0"
  by (simp add: calculate_percentile_def)

subsection \<open>Bucket keys\<close>


lemma first_weight_class_sorted:
  "sorted classes \<Longrightarrow>
   first_weight_class bw classes =
     (if \<exists>c\<in>set classes. bw \<le> of_int c
      then Some (str_int (Min {c \<in> set classes. bw \<le> of_int c})) else None)"
proof (induction classes)
  case Nil
  then show ?case by simp
next
  case (Cons c cs)
  show ?case
  proof (cases "bw \<le> of_int c")
    case True
    have "Min {x \<in> set (c # cs). bw \<le> of_int x} = c"
    proof (rule Min_eqI)
      show "finite {x \<in> set (c # cs). bw \<le> of_int x}" by simp
      show "c \<in> {x \<in> set (c # cs). bw \<le> of_int x}" using True by simp
      fix y assume "y \<in> {x \<in> set (c # cs). bw \<le> of_int x}"
      then show "c \<le> y" using Cons.prems by auto
    qed
    then show ?thesis using True by auto
  next
    case False
    then have eq: "{x \<in> set (c # cs). bw \<le> of_int x} = {x \<in> set cs. bw \<le> of_int x}"
      by auto
    have "sorted cs" using Cons.prems by simp
    then show ?thesis using False Cons.IH unfolding eq by simp
  qed
qed

lemma last_sorted_Max: "sorted xs \<Longrightarrow> xs \<noteq> [] \<Longrightarrow> last xs = Max (set (xs :: int list))"
  by (induction xs) (auto simp: max_def intro: antisym)

lemma classes_sorted:
  "sorted (if is_male then MALE_WEIGHT_CLASSES else FEMALE_WEIGHT_CLASSES)"
  "(if is_male then MALE_WEIGHT_CLASSES else FEMALE_WEIGHT_CLASSES) \<noteq> []"
  by (simp_all add: MALE_WEIGHT_CLASSES_def FEMALE_WEIGHT_CLASSES_def)

text \<open>
  Claim C4. The weight-class label is the decimal string of the smallest configured
  threshold that is at least the bodyweight (male 59, 66, 74, 83, 93, 105, 120, 140; female
  47, 52, 57, 63, 69, 76, 84, 100); when the bodyweight exceeds every threshold it is the
  largest threshold followed by a plus sign.
\<close>

theorem get_weight_class_smallest_threshold:
  "MALE_WEIGHT_CLASSES = [59, 66, 74, 83, 93, 105, 120, 140] \<and>
   FEMALE_WEIGHT_CLASSES = [47, 52, 57, 63, 69, 76, 84, 100] \<and>
   get_weight_class bodyweight is_male =
     (let classes = (if is_male then MALE_WEIGHT_CLASSES else FEMALE_WEIGHT_CLASSES)
      in if \<exists>c\<in>set classes. bodyweight \<le> of_int c
         then str_int (Min {c \<in> set classes. bodyweight \<le> of_int c})
         else str_int (Max (set classes)) @ ''+'')"
  using first_weight_class_sorted[OF classes_sorted(1), of bodyweight is_male]
        last_sorted_Max[OF classes_sorted, of is_male]
  by (simp add: get_weight_class_def Let_def MALE_WEIGHT_CLASSES_def FEMALE_WEIGHT_CLASSES_def)

theorem get_weight_class_smallest_threshold_witness:
  "(\<exists>c\<in>set MALE_WEIGHT_CLASSES. (165 / 2 :: rat) \<le> of_int c) \<and>
   Min {c \<in> set MALE_WEIGHT_CLASSES. (165 / 2 :: rat) \<le> of_int c} = 83 \<and>
   get_weight_class (165 / 2) True = ''83'' \<and>
   \<not> (\<exists>c\<in>set FEMALE_WEIGHT_CLASSES. (101 :: rat) \<le> of_int c) \<and>
   get_weight_class 101 False = ''100+''"
proof -
  have s: "{c \<in> set MALE_WEIGHT_CLASSES. (165 / 2 :: rat) \<le> of_int c} = {83, 93, 105, 120, 140}"
    by (auto simp: MALE_WEIGHT_CLASSES_def)
  have e: "\<exists>c\<in>set MALE_WEIGHT_CLASSES. (165 / 2 :: rat) \<le> of_int c"
    by (simp add: MALE_WEIGHT_CLASSES_def)
  have n: "\<not> (\<exists>c\<in>set FEMALE_WEIGHT_CLASSES. (101 :: rat) \<le> of_int c)"
    by (simp add: FEMALE_WEIGHT_CLASSES_def)
  have m: "Max (set FEMALE_WEIGHT_CLASSES) = 100"
    by (simp add: FEMALE_WEIGHT_CLASSES_def)
  have s83: "str_int 83 = ''83''" by code_simp
  have s100: "str_int 100 = ''100''" by code_simp
  have mn: "Min {c \<in> set MALE_WEIGHT_CLASSES. (165 / 2 :: rat) \<le> of_int c} = 83"
    unfolding s by simp
  have "get_weight_class (165 / 2) True =
          (if \<exists>c\<in>set MALE_WEIGHT_CLASSES. (165 / 2 :: rat) \<le> of_int c
           then str_int (Min {c \<in> set MALE_WEIGHT_CLASSES. (165 / 2 :: rat) \<le> of_int c})
           else str_int (Max (set MALE_WEIGHT_CLASSES)) @ ''+'')"
    using get_weight_class_smallest_threshold[of "165 / 2" True] by (simp only: Let_def if_True)
  then have a: "get_weight_class (165 / 2) True = ''83''"
    using e by (simp only: if_True mn s83)
  have "get_weight_class 101 False =
          (if \<exists>c\<in>set FEMALE_WEIGHT_CLASSES. (101 :: rat) \<le> of_int c
           then str_int (Min {c \<in> set FEMALE_WEIGHT_CLASSES. (101 :: rat) \<le> of_int c})
           else str_int (Max (set FEMALE_WEIGHT_CLASSES)) @ ''+'')"
    using get_weight_class_smallest_threshold[of 101 False] by (simp only: Let_def if_False)
  then have b: "get_weight_class 101 False = ''100+''"
    using n by (simp only: if_False m s100 append.simps)
  show ?thesis using a b e n mn by simp
qed

lemma first_age_bracket_find:
  "first_age_bracket age bs =
     map_option (\<lambda>(lo, hi, b). b) (find (\<lambda>(lo, hi, b). of_int lo \<le> age \<and> age \<le> of_int hi) bs)"
  by (induction age bs rule: first_age_bracket.induct) auto

lemma first_age_bracket_None:
  "first_age_bracket age bs = None \<longleftrightarrow>
     (\<forall>(lo, hi, b)\<in>set bs. \<not> (of_int lo \<le> age \<and> age \<le> of_int hi))"
  by (induction age bs rule: first_age_bracket.induct) auto

text \<open>
  Claim C5, as stated, fails: an age that parses but lies in no configured range (here 23.5,
  between the ranges ending at 23 and starting at 24) gets no bracket although the field is
  neither missing nor unparseable.
\<close>

theorem row_age_bracket_gap_counterexample:
  "row_age_bracket decimal_float [''Age'' \<mapsto> Some ''23.5''] = None \<and>
   decimal_float ''23.5'' = Some (47 / 2) \<and>
   \<not> age_missing_or_unparseable decimal_float [''Age'' \<mapsto> Some ''23.5'']"
proof -
  have d: "decimal_float ''23.5'' = Some (47 / 2)" by code_simp
  have g: "get_age_bracket (47 / 2) = None" by code_simp
  show ?thesis
    by (simp add: row_age_bracket_def age_missing_or_unparseable_def row_get_def d g)
qed

text \<open>
  Claim C5, amended. The age bracket of a record whose age field parses is the label of the
  first configured range containing the age (0 to 23 junior, 24 to 39 open, 40 to 49
  masters_40, 50 to 59 masters_50, 60 to 69 masters_60, 70 to 999 masters_70); a record
  receives no age bracket exactly when its age field is missing, empty or unparseable, or
  parses to an age that lies in none of the configured ranges.
\<close>

theorem row_age_bracket_characterisation:
  "AGE_BRACKETS =
     [(0, 23, ''junior''), (24, 39, ''open''), (40, 49, ''masters_40''),
      (50, 59, ''masters_50''), (60, 69, ''masters_60''), (70, 999, ''masters_70'')] \<and>
   (\<forall>s age. row_get r ''Age'' = Some s \<and> s \<noteq> [] \<and> pfloat s = Some age \<longrightarrow>
      row_age_bracket pfloat r =
        map_option (\<lambda>(lo, hi, b). b)
          (find (\<lambda>(lo, hi, b). of_int lo \<le> age \<and> age \<le> of_int hi) AGE_BRACKETS)) \<and>
   (row_age_bracket pfloat r = None \<longleftrightarrow>
      age_missing_or_unparseable pfloat r \<or>
      (\<exists>s age. row_get r ''Age'' = Some s \<and> pfloat s = Some age \<and>
         (\<forall>(lo, hi, b)\<in>set AGE_BRACKETS. \<not> (of_int lo \<le> age \<and> age \<le> of_int hi))))"
proof (intro conjI allI impI)
  show "AGE_BRACKETS =
     [(0, 23, ''junior''), (24, 39, ''open''), (40, 49, ''masters_40''),
      (50, 59, ''masters_50''), (60, 69, ''masters_60''), (70, 999, ''masters_70'')]"
    by (simp add: AGE_BRACKETS_def)
next
  fix s age
  assume "row_get r ''Age'' = Some s \<and> s \<noteq> [] \<and> pfloat s = Some age"
  then show "row_age_bracket pfloat r =
        map_option (\<lambda>(lo, hi, b). b)
          (find (\<lambda>(lo, hi, b). of_int lo \<le> age \<and> age \<le> of_int hi) AGE_BRACKETS)"
    by (simp add: row_age_bracket_def get_age_bracket_def first_age_bracket_find)
next
  show "row_age_bracket pfloat r = None \<longleftrightarrow>
      age_missing_or_unparseable pfloat r \<or>
      (\<exists>s age. row_get r ''Age'' = Some s \<and> pfloat s = Some age \<and>
         (\<forall>(lo, hi, b)\<in>set AGE_BRACKETS. \<not> (of_int lo \<le> age \<and> age \<le> of_int hi)))"
    by (auto simp: row_age_bracket_def age_missing_or_unparseable_def get_age_bracket_def
          first_age_bracket_None split: option.splits)
qed

theorem row_age_bracket_characterisation_witness:
  "row_get [''Age'' \<mapsto> Some ''30''] ''Age'' = Some ''30'' \<and> ''30'' \<noteq> [] \<and>
   decimal_float ''30'' = Some 30 \<and>
   row_age_bracket decimal_float [''Age'' \<mapsto> Some ''30''] = Some ''open'' \<and>
   age_missing_or_unparseable decimal_float [''Age'' \<mapsto> Some ''abc''] \<and>
   row_age_bracket decimal_float [''Age'' \<mapsto> Some ''abc''] = None"
proof -
  have d: "decimal_float ''30'' = Some 30" by code_simp
  have u: "decimal_float ''abc'' = None" by code_simp
  have g: "row_get [''Age'' \<mapsto> Some ''30''] ''Age'' = Some ''30''" by (simp add: row_get_def)
  have m: "age_missing_or_unparseable decimal_float [''Age'' \<mapsto> Some ''abc'']"
    by (simp add: age_missing_or_unparseable_def row_get_def u)
  have a: "row_age_bracket decimal_float [''Age'' \<mapsto> Some ''30''] = Some ''open''"
    using row_age_bracket_characterisation[of "[''Age'' \<mapsto> Some ''30'']" decimal_float] g d
    by (simp add: AGE_BRACKETS_def)
  have b: "row_age_bracket decimal_float [''Age'' \<mapsto> Some ''abc''] = None"
    using row_age_bracket_characterisation[of "[''Age'' \<mapsto> Some ''abc'']" decimal_float] m by blast
  show ?thesis using a b d g m by simp
qed


subsection \<open>The statistics loops in closed form\<close>




lemma map_of_dict_set: "map_of (dict_set d k v) = (map_of d)(k \<mapsto> v)"
  by (induction d k v rule: dict_set.induct) auto

lemma dict_set_fresh: "k \<notin> fst ` set d \<Longrightarrow> dict_set d k v = d @ [(k, v)]"
  by (induction d k v rule: dict_set.induct) auto

lemma entries_Nil [simp]: "entries g [] = []"
  by (simp add: entries_def)

lemma entries_Cons:
  "entries g (k # ks) = (case g k of None \<Rightarrow> [] | Some v \<Rightarrow> [(k, v)]) @ entries g ks"
  by (simp add: entries_def)


lemma map_of_entries: "map_of (entries g ks) k = (if k \<in> set ks then g k else None)"
  by (induction ks) (auto simp: entries_Cons split: option.splits)

lemma fst_entries: "map fst (entries g ks) = filter (\<lambda>k. g k \<noteq> None) ks"
  by (induction ks) (auto simp: entries_Cons split: option.splits)

lemma entries_empty: "entries g ks = [] \<longleftrightarrow> (\<forall>k\<in>set ks. g k = None)"
  by (induction ks) (auto simp: entries_Cons split: option.splits)

lemma str_percentiles:
  "map str_int PERCENTILES =
     [''5'', ''10'', ''20'', ''30'', ''40'', ''50'', ''60'', ''70'', ''80'', ''90'', ''95'', ''99'']"
  by code_simp

lemma percentiles_dict_closed:
  assumes "vals \<noteq> []" and "set ps \<subseteq> set PERCENTILES"
    and "distinct (map fst acc @ map str_int ps)"
  shows "percentiles_dict vals ps acc =
           Inr (acc @ map (\<lambda>p. (str_int p, JNum (py_round1 (projr (calculate_percentile vals p))))) ps)"
  using assms(2,3)
proof (induction ps arbitrary: acc)
  case Nil
  then show ?case by simp
next
  case (Cons p ps)
  from Cons.prems(1) have "p \<in> set PERCENTILES" by simp
  from calculate_percentile_returns[OF assms(1) this]
  obtain x where x: "calculate_percentile vals p = Inr x" by blast
  have fresh: "str_int p \<notin> fst ` set acc" using Cons.prems(2) by auto
  have d: "distinct (map fst (acc @ [(str_int p, JNum (py_round1 x))]) @ map str_int ps)"
    using Cons.prems(2) by auto
  have s: "set ps \<subseteq> set PERCENTILES" using Cons.prems(1) by simp
  show ?case
    using Cons.IH[OF s d] by (simp add: x dict_set_fresh[OF fresh])
qed

lemma percentiles_dict_entries:
  assumes "vals \<noteq> []"
  shows "percentiles_dict vals PERCENTILES [] = Inr (percentile_entries vals)"
proof -
  have "distinct (map fst ([] :: (string \<times> json) list) @ map str_int PERCENTILES)"
    unfolding str_percentiles by simp
  from percentiles_dict_closed[OF assms subset_refl this]
  show ?thesis by (simp add: percentile_entries_def)
qed

lemma lift_stats_closed:
  assumes "0 < min_n" and "distinct (map fst acc @ ls)"
  shows "lift_stats min_n m ls acc =
           Inr (acc @ entries (\<lambda>lift. if min_n \<le> length (dd_get m lift [])
                      then Some (stat_entry (dd_get m lift [])) else None) ls)"
  using assms(2)
proof (induction ls arbitrary: acc)
  case Nil
  then show ?case by simp
next
  case (Cons k ks)
  show ?case
  proof (cases "min_n \<le> length (dd_get m k [])")
    case True
    then have ne: "dd_get m k [] \<noteq> []" using assms(1) by auto
    have fresh: "k \<notin> fst ` set acc" using Cons.prems by auto
    have d: "distinct (map fst (acc @ [(k, stat_entry (dd_get m k []))]) @ ks)"
      using Cons.prems by auto
    show ?thesis
      using Cons.IH[OF d] True
      by (simp add: Let_def percentiles_dict_entries[OF ne] dict_set_fresh[OF fresh]
            entries_Cons stat_entry_def)
  next
    case False
    have d: "distinct (map fst acc @ ks)" using Cons.prems by auto
    show ?thesis using Cons.IH[OF d] False by (simp add: Let_def entries_Cons)
  qed
qed

lemma lift_stats_LIFTS:
  "0 < min_n \<Longrightarrow> lift_stats min_n m LIFTS [] = Inr (stats_list min_n m)"
  using lift_stats_closed[of min_n "[]" LIFTS m]
  by (simp add: stats_list_def LIFTS_def)

lemma by_age_stats_None: "by_age_stats None brs acc = Inr acc"
  by (induction brs) simp_all

lemma by_age_stats_Some:
  assumes "distinct (map fst acc @ brs)"
  shows "by_age_stats (Some bm) brs acc =
           Inr (acc @ entries (\<lambda>ab. case bm ab of
                           None \<Rightarrow> None
                         | Some m \<Rightarrow>
                             if stats_list 30 m \<noteq> [] then Some (JDict (stats_list 30 m))
                             else None) brs)"
  using assms
proof (induction brs arbitrary: acc)
  case Nil
  then show ?case by simp
next
  case (Cons k ks)
  have d0: "distinct (map fst acc @ ks)" using Cons.prems by auto
  have fresh: "k \<notin> fst ` set acc" using Cons.prems by auto
  have d1: "distinct (map fst (acc @ [(k, v)]) @ ks)" for v :: json
    using Cons.prems by auto
  show ?case
    using Cons.IH[OF d0] Cons.IH[OF d1]
    by (simp add: entries_Cons lift_stats_LIFTS dict_set_fresh[OF fresh]
          split: option.splits)
qed

lemma by_age_stats_closed:
  assumes "distinct (map fst acc @ brs)"
  shows "by_age_stats by_bracket brs acc =
           Inr (acc @ entries (\<lambda>ab. case by_bracket of
                      None \<Rightarrow> None
                    | Some bm \<Rightarrow>
                        (case bm ab of
                           None \<Rightarrow> None
                         | Some m \<Rightarrow>
                             if stats_list 30 m \<noteq> [] then Some (JDict (stats_list 30 m))
                             else None)) brs)"
proof (cases by_bracket)
  case None
  have "entries (\<lambda>ab. None :: json option) brs = []"
    by (simp add: entries_empty)
  then show ?thesis using None by (simp add: by_age_stats_None)
next
  case (Some bm)
  then show ?thesis using by_age_stats_Some[OF assms] by simp
qed

lemma bracket_names:
  "map (\<lambda>ab. snd (snd ab)) AGE_BRACKETS =
     [''junior'', ''open'', ''masters_40'', ''masters_50'', ''masters_60'', ''masters_70'']"
  by (simp add: AGE_BRACKETS_def)

lemma by_age_stats_brackets:
  "by_age_stats by_bracket (map (\<lambda>ab. snd (snd ab)) AGE_BRACKETS) [] = Inr (by_age_list by_bracket)"
proof -
  have "distinct (map fst ([] :: (string \<times> json) list) @ map (\<lambda>ab. snd (snd ab)) AGE_BRACKETS)"
    unfolding bracket_names by simp
  from by_age_stats_closed[OF this] show ?thesis by (simp add: by_age_list_def)
qed

lemma weight_class_stats_closed:
  assumes "distinct (map fst acc @ keys)"
  shows "weight_class_stats st sex_key keys acc = Inr (acc @ wc_list st sex_key keys)"
  using assms
proof (induction keys arbitrary: acc)
  case Nil
  then show ?case by (simp add: wc_list_def)
next
  case (Cons k ks)
  have d0: "distinct (map fst acc @ ks)" using Cons.prems by auto
  have fresh: "k \<notin> fst ` set acc" using Cons.prems by auto
  have d1: "distinct (map fst (acc @ [(k, v)]) @ ks)" for v :: json
    using Cons.prems by auto
  show ?case
    using Cons.IH[OF d0] Cons.IH[OF d1]
    by (simp add: wc_list_def entries_Cons lift_stats_LIFTS by_age_stats_brackets
          dict_set_fresh[OF fresh] split: option.splits)
qed

lemma male_keys:
  "weight_class_keys MALE_WEIGHT_CLASSES =
     [''59'', ''59+'', ''66'', ''66+'', ''74'', ''74+'', ''83'', ''83+'', ''93'', ''93+'',
      ''105'', ''105+'', ''120'', ''120+'', ''140'', ''140+'']"
  by code_simp

lemma female_keys:
  "weight_class_keys FEMALE_WEIGHT_CLASSES =
     [''47'', ''47+'', ''52'', ''52+'', ''57'', ''57+'', ''63'', ''63+'', ''69'', ''69+'',
      ''76'', ''76+'', ''84'', ''84+'', ''100'', ''100+'']"
  by code_simp

lemma build_result_closed:
  "build_result st =
     Inr (JDict
       [(''metadata'', JDict
           [(''source'', JStr ''OpenPowerlifting''),
            (''url'', JStr ''https://www.openpowerlifting.org''),
            (''lifter_count'', JInt (int (included_count st))),
            (''description'', JStr ''Percentile data from competitive powerlifting meets''),
            (''units'', JStr ''kg''),
            (''percentiles'', JList (map JInt PERCENTILES))]),
        (''male'', JDict (wc_list st ''male'' (weight_class_keys MALE_WEIGHT_CLASSES))),
        (''female'', JDict (wc_list st ''female'' (weight_class_keys FEMALE_WEIGHT_CLASSES)))])"
proof -
  have m: "distinct (map fst ([] :: (string \<times> json) list) @ weight_class_keys MALE_WEIGHT_CLASSES)"
    unfolding male_keys by simp
  have f: "distinct (map fst ([] :: (string \<times> json) list) @ weight_class_keys FEMALE_WEIGHT_CLASSES)"
    unfolding female_keys by simp
  show ?thesis
    by (simp add: build_result_def weight_class_stats_closed[OF m] weight_class_stats_closed[OF f])
qed


subsection \<open>The result in terms of the aggregated lists\<close>


lemma process_data_closed:
  assumes "process_rows pfloat init_agg rows = Inr st"
  shows "process_data pfloat rows =
     Inr (JDict
       [(''metadata'', JDict
           [(''source'', JStr ''OpenPowerlifting''),
            (''url'', JStr ''https://www.openpowerlifting.org''),
            (''lifter_count'', JInt (int (included_count st))),
            (''description'', JStr ''Percentile data from competitive powerlifting meets''),
            (''units'', JStr ''kg''),
            (''percentiles'', JList (map JInt PERCENTILES))]),
        (''male'', JDict (wc_list st ''male'' (weight_class_keys MALE_WEIGHT_CLASSES))),
        (''female'', JDict (wc_list st ''female'' (weight_class_keys FEMALE_WEIGHT_CLASSES)))])"
  by (simp add: process_data_def assms build_result_closed)

lemma result_at_sex:
  assumes "process_rows pfloat init_agg rows = Inr st"
    and "sex_key = ''male'' \<or> sex_key = ''female''"
  shows "result_at (process_data pfloat rows) (sex_key # path) =
           jpath (JDict (wc_list st sex_key (weight_class_keys (sex_classes sex_key)))) path"
  using assms(2)
  by (auto simp: result_at_def process_data_closed[OF assms(1)] sex_classes_def)

lemma map_of_stats_list:
  "map_of (stats_list min_n m) lift =
     (if lift \<in> set LIFTS \<and> min_n \<le> length (dd_get m lift [])
      then Some (stat_entry (dd_get m lift [])) else None)"
  by (simp add: stats_list_def map_of_entries)

lemma stats_list_empty:
  "stats_list min_n m = [] \<longleftrightarrow> (\<forall>lift\<in>set LIFTS. length (dd_get m lift []) < min_n)"
  by (auto simp: stats_list_def entries_empty not_le split: if_splits)

lemma map_of_wc_list:
  "map_of (wc_list st sex_key keys) wc =
     (if wc \<in> set keys then
        (case all_ages_data st sex_key wc of
           None \<Rightarrow> None
         | Some m \<Rightarrow>
             if stats_list 50 m \<noteq> [] then
               Some (JDict [(''all_ages'', JDict (stats_list 50 m)),
                            (''by_age'', JDict (by_age_list (data st sex_key wc)))])
             else None)
      else None)"
  by (simp add: wc_list_def map_of_entries)

lemma map_of_by_age_list:
  "map_of (by_age_list by_bracket) ab =
     (if ab \<in> set (map (\<lambda>ab. snd (snd ab)) AGE_BRACKETS) then
        (case by_bracket of
           None \<Rightarrow> None
         | Some bm \<Rightarrow>
             (case bm ab of
                None \<Rightarrow> None
              | Some m \<Rightarrow>
                  if stats_list 30 m \<noteq> [] then Some (JDict (stats_list 30 m)) else None))
      else None)"
  by (simp add: by_age_list_def map_of_entries)

lemma result_at_wc:
  assumes "process_rows pfloat init_agg rows = Inr st"
    and "sex_key = ''male'' \<or> sex_key = ''female''"
    and "result_at (process_data pfloat rows) (sex_key # wc # path) = Some j"
  shows "\<exists>m. all_ages_data st sex_key wc = Some m \<and> stats_list 50 m \<noteq> [] \<and>
             jpath (JDict [(''all_ages'', JDict (stats_list 50 m)),
                           (''by_age'', JDict (by_age_list (data st sex_key wc)))]) path = Some j"
  using assms(3) unfolding result_at_sex[OF assms(1,2)]
  by (auto simp: map_of_wc_list split: option.splits if_splits)

lemma result_at_all_ages:
  assumes "process_rows pfloat init_agg rows = Inr st"
    and "sex_key = ''male'' \<or> sex_key = ''female''"
    and "result_at (process_data pfloat rows) [sex_key, wc, ''all_ages'', lift] = Some e"
  shows "lift \<in> set LIFTS \<and> 50 \<le> length (all_ages_values st sex_key wc lift) \<and>
         e = stat_entry (all_ages_values st sex_key wc lift)"
proof -
  from result_at_wc[OF assms] obtain m where
    m: "all_ages_data st sex_key wc = Some m" and
    j: "jpath (JDict [(''all_ages'', JDict (stats_list 50 m)),
                      (''by_age'', JDict (by_age_list (data st sex_key wc)))])
          [''all_ages'', lift] = Some e"
    by blast
  have v: "all_ages_values st sex_key wc lift = dd_get m lift []"
    by (simp add: all_ages_values_def dd_get_def m)
  from j have "map_of (stats_list 50 m) lift = Some e"
    by (simp split: option.splits)
  then show ?thesis unfolding v
    by (auto simp: map_of_stats_list split: if_splits)
qed

lemma result_at_bracket:
  assumes "process_rows pfloat init_agg rows = Inr st"
    and "sex_key = ''male'' \<or> sex_key = ''female''"
    and "result_at (process_data pfloat rows) (sex_key # wc # ''by_age'' # ab # path) = Some j"
  shows "\<exists>bm m. data st sex_key wc = Some bm \<and> bm ab = Some m \<and> stats_list 30 m \<noteq> [] \<and>
           ab \<in> set (map (\<lambda>ab. snd (snd ab)) AGE_BRACKETS) \<and>
           jpath (JDict (stats_list 30 m)) path = Some j"
proof -
  from result_at_wc[OF assms] obtain m0 where
    j: "jpath (JDict [(''all_ages'', JDict (stats_list 50 m0)),
                      (''by_age'', JDict (by_age_list (data st sex_key wc)))])
          (''by_age'' # ab # path) = Some j"
    by blast
  then have "\<exists>j'. map_of (by_age_list (data st sex_key wc)) ab = Some j' \<and> jpath j' path = Some j"
    by (simp split: option.splits)
  then show ?thesis
    unfolding map_of_by_age_list
    by (auto split: option.splits if_splits)
qed

lemma result_at_by_age:
  assumes "process_rows pfloat init_agg rows = Inr st"
    and "sex_key = ''male'' \<or> sex_key = ''female''"
    and "result_at (process_data pfloat rows) [sex_key, wc, ''by_age'', ab, lift] = Some e"
  shows "lift \<in> set LIFTS \<and> 30 \<le> length (data_values st sex_key wc ab lift) \<and>
         e = stat_entry (data_values st sex_key wc ab lift)"
proof -
  from result_at_bracket[OF assms] obtain bm m where
    bm: "data st sex_key wc = Some bm" "bm ab = Some m" and
    j: "jpath (JDict (stats_list 30 m)) [lift] = Some e"
    by blast
  have v: "data_values st sex_key wc ab lift = dd_get m lift []"
    by (simp add: data_values_def dd_get_def bm)
  from j have "map_of (stats_list 30 m) lift = Some e"
    by (simp split: option.splits)
  then show ?thesis unfolding v
    by (auto simp: map_of_stats_list split: if_splits)
qed

lemma jget_stat_entry:
  "jget (stat_entry vals) ''count'' = Some (JInt (int (length vals)))"
  "jget (stat_entry vals) ''percentiles'' = Some (JDict (percentile_entries vals))"
  by (simp_all add: stat_entry_def)

lemma keys_percentile_entries:
  "map fst (percentile_entries vals) =
     [''5'', ''10'', ''20'', ''30'', ''40'', ''50'', ''60'', ''70'', ''80'', ''90'', ''95'', ''99'']"
proof -
  have "map fst (percentile_entries vals) = map str_int PERCENTILES"
    by (simp add: percentile_entries_def comp_def)
  then show ?thesis by (simp only: str_percentiles)
qed


subsection \<open>The concrete run\<close>




lemma example_fields:
  "decimal_float ''82.5'' = Some (165 / 2)"
  "decimal_float ''30'' = Some 30"
  "decimal_float ''200'' = Some 200"
  "lower ''M'' = ''m''"
  "get_weight_class (165 / 2) True = ''83''"
  "get_age_bracket 30 = Some ''open''"
  by code_simp+

lemma example_row_get:
  "row_get example_row ''BodyweightKg'' = Some ''82.5''"
  "row_get example_row ''Sex'' = Some ''M''"
  "row_get example_row ''Age'' = Some ''30''"
  "row_get example_row ''Best3SquatKg'' = Some ''200''"
  "row_get example_row ''Best3BenchKg'' = Some ''-150''"
  "row_get example_row ''Best3DeadliftKg'' = Some ''''"
  by (simp_all add: row_get_def example_row_def)

lemma process_row_example_first:
  "process_row decimal_float init_agg example_row = Inr (example_agg 1)"
  by (simp add: process_row_def example_row_get example_fields Let_def row_age_bracket_def
        store_lift_def startswith_minus_def add_all_ages_def add_data_def dd_append_def
        dd_get_def init_agg_def example_agg_def)

lemma process_row_example_next:
  "process_row decimal_float (example_agg n) example_row = Inr (example_agg (Suc n))"
  by (simp add: process_row_def example_row_get example_fields Let_def row_age_bracket_def
        store_lift_def startswith_minus_def add_all_ages_def add_data_def dd_append_def
        dd_get_def example_agg_def replicate_append_same)

lemma process_rows_example_from:
  "process_rows decimal_float (example_agg n) (replicate k example_row) = Inr (example_agg (n + k))"
  by (induction k arbitrary: n) (simp_all add: process_row_example_next)

lemma process_rows_example:
  "process_rows decimal_float init_agg (replicate (Suc k) example_row) = Inr (example_agg (Suc k))"
  using process_rows_example_from[of 1 k] by (simp add: process_row_example_first)

lemma process_rows_example_50:
  "process_rows decimal_float init_agg (replicate 50 example_row) = Inr (example_agg 50)"
  using process_rows_example[of 49] by simp









lemma stats_list_example:
  "0 < min_n \<Longrightarrow> stats_list min_n [''squat'' \<mapsto> replicate n 200] =
     (if min_n \<le> n then [(''squat'', stat_entry (replicate n 200))] else [])"
  by (simp add: stats_list_def entries_def LIFTS_def dd_get_def)

lemma by_age_list_example:
  "by_age_list (Some [''open'' \<mapsto> [''squat'' \<mapsto> replicate n 200]]) =
     (if 30 \<le> n then [(''open'', JDict [(''squat'', stat_entry (replicate n 200))])] else [])"
  by (simp add: by_age_list_def bracket_names entries_def stats_list_example)

lemma wc_list_example:
  "wc_list (example_agg n) ''male'' (weight_class_keys MALE_WEIGHT_CLASSES) =
     (if 50 \<le> n then
        [(''83'', JDict [(''all_ages'', JDict [(''squat'', stat_entry (replicate n 200))]),
                         (''by_age'', JDict [(''open'',
                            JDict [(''squat'', stat_entry (replicate n 200))])])])]
      else [])"
  by (simp add: wc_list_def male_keys entries_def example_agg_def stats_list_example
        by_age_list_example)

lemma result_at_example:
  "result_at (process_data decimal_float (replicate (Suc k) example_row)) (''male'' # path) =
     jpath (JDict (if 50 \<le> Suc k then
        [(''83'', JDict [(''all_ages'', JDict [(''squat'', stat_entry (replicate (Suc k) 200))]),
                         (''by_age'', JDict [(''open'',
                            JDict [(''squat'', stat_entry (replicate (Suc k) 200))])])])]
      else [])) path"
  using result_at_sex[OF process_rows_example, of "''male''" k path]
  by (simp only: sex_classes_def wc_list_example if_True simp_thms)

lemma values_example:
  "all_ages_values (example_agg n) ''male'' ''83'' lift =
     (if lift = ''squat'' then replicate n 200 else [])"
  "data_values (example_agg n) ''male'' ''83'' ab lift =
     (if ab = ''open'' \<and> lift = ''squat'' then replicate n 200 else [])"
  by (simp_all add: all_ages_values_def data_values_def example_agg_def dd_get_def)

lemma rows_50: "process_rows decimal_float init_agg (replicate 50 example_row) = Inr (example_agg 50)"
  using process_rows_example[of 49] by simp

lemma rows_30: "process_rows decimal_float init_agg (replicate 30 example_row) = Inr (example_agg 30)"
  using process_rows_example[of 29] by simp

lemma result_at_50:
  "result_at (process_data decimal_float (replicate 50 example_row)) (''male'' # path) =
     jpath (JDict
        [(''83'', JDict [(''all_ages'', JDict [(''squat'', stat_entry (replicate 50 200))]),
                         (''by_age'', JDict [(''open'',
                            JDict [(''squat'', stat_entry (replicate 50 200))])])])]) path"
  using result_at_example[of 49 path] by simp

lemma result_at_30:
  "result_at (process_data decimal_float (replicate 30 example_row)) (''male'' # path) =
     jpath (JDict []) path"
  using result_at_example[of 29 path] by simp


subsection \<open>When the aggregation pass returns\<close>

text \<open>The pass raises only on a row whose \<^verbatim>\<open>Sex\<close> field is \<^verbatim>\<open>None\<close>.\<close>

lemma process_row_returns:
  assumes "r ''Sex'' \<noteq> Some None"
  shows "\<exists>st'. process_row pfloat st r = Inr st'"
proof -
  have "row_get r ''Sex'' \<noteq> None"
    using assms by (cases "r ''Sex''") (auto simp: row_get_def)
  then show ?thesis
    by (auto simp: process_row_def Let_def split: option.splits)
qed

lemma process_rows_returns:
  assumes "\<forall>r\<in>set rows. r ''Sex'' \<noteq> Some None"
  shows "\<exists>st'. process_rows pfloat st rows = Inr st'"
  using assms
proof (induction rows arbitrary: st)
  case Nil
  then show ?case by simp
next
  case (Cons r rs)
  from Cons.prems have "r ''Sex'' \<noteq> Some None" by simp
  then have "\<exists>st'. process_row pfloat st r = Inr st'"
    by (rule process_row_returns)
  then obtain st1 where "process_row pfloat st r = Inr st1"
    by blast
  moreover from Cons.prems have "\<forall>r\<in>set rs. r ''Sex'' \<noteq> Some None" by simp
  from Cons.IH[OF this] obtain st2 where "process_rows pfloat st1 rs = Inr st2" by blast
  ultimately show ?case by simp
qed

subsection \<open>Minimum sample sizes\<close>

text \<open>
  Claim C2. For every sex, weight class and lift, a statistic for the lift appears under
  \<^verbatim>\<open>all_ages\<close> in the result only when the list aggregated for that sex, weight
  class and lift has at least 50 entries; below that the lift has no entry there at all. An
  entry that appears carries the length of the list as its \<^verbatim>\<open>count\<close>.
\<close>

theorem all_ages_min_sample:
  assumes "process_rows pfloat init_agg rows = Inr st"
    and "sex_key = ''male'' \<or> sex_key = ''female''"
  shows "(result_at (process_data pfloat rows) [sex_key, wc, ''all_ages'', lift] \<noteq> None \<longrightarrow>
            50 \<le> length (all_ages_values st sex_key wc lift)) \<and>
         (length (all_ages_values st sex_key wc lift) < 50 \<longrightarrow>
            result_at (process_data pfloat rows) [sex_key, wc, ''all_ages'', lift] = None) \<and>
         (\<forall>e. result_at (process_data pfloat rows) [sex_key, wc, ''all_ages'', lift] = Some e \<longrightarrow>
            jget e ''count'' = Some (JInt (int (length (all_ages_values st sex_key wc lift)))))"
  using result_at_all_ages[OF assms, of wc lift]
  by (cases "result_at (process_data pfloat rows) [sex_key, wc, ''all_ages'', lift]")
     (auto simp: jget_stat_entry)

theorem all_ages_min_sample_witness:
  "process_rows decimal_float init_agg (replicate 50 example_row) = Inr (example_agg 50) \<and>
   result_at (process_data decimal_float (replicate 50 example_row))
     [''male'', ''83'', ''all_ages'', ''squat''] \<noteq> None \<and>
   50 \<le> length (all_ages_values (example_agg 50) ''male'' ''83'' ''squat'') \<and>
   length (all_ages_values (example_agg 50) ''male'' ''83'' ''bench'') < 50 \<and>
   result_at (process_data decimal_float (replicate 50 example_row))
     [''male'', ''83'', ''all_ages'', ''bench''] = None"
proof -
  have s: "''male'' = ''male'' \<or> ''male'' = ''female''" by simp
  have a: "result_at (process_data decimal_float (replicate 50 example_row))
             [''male'', ''83'', ''all_ages'', ''squat''] \<noteq> None"
    by (simp add: result_at_50)
  have b: "length (all_ages_values (example_agg 50) ''male'' ''83'' ''bench'') < 50"
    by (simp add: values_example)
  have c: "50 \<le> length (all_ages_values (example_agg 50) ''male'' ''83'' ''squat'')"
    using all_ages_min_sample[OF rows_50 s, of "''83''" "''squat''"] a by blast
  have d: "result_at (process_data decimal_float (replicate 50 example_row))
             [''male'', ''83'', ''all_ages'', ''bench''] = None"
    using all_ages_min_sample[OF rows_50 s, of "''83''" "''bench''"] b by blast
  show ?thesis
    by (intro conjI) (rule rows_50, rule a, rule c, rule b, rule d)
qed

text \<open>
  Claim C3. For every sex, weight class, age bracket and lift, a statistic for the lift
  appears under the age bracket in \<^verbatim>\<open>by_age\<close> only when the list aggregated for
  that sex, weight class, bracket and lift has at least 30 entries; a lift below that has no
  entry, and an age bracket none of whose lifts reaches 30 has no entry in
  \<^verbatim>\<open>by_age\<close>.
\<close>

theorem by_age_min_sample:
  assumes "process_rows pfloat init_agg rows = Inr st"
    and "sex_key = ''male'' \<or> sex_key = ''female''"
  shows "(result_at (process_data pfloat rows) [sex_key, wc, ''by_age'', ab, lift] \<noteq> None \<longrightarrow>
            30 \<le> length (data_values st sex_key wc ab lift)) \<and>
         (length (data_values st sex_key wc ab lift) < 30 \<longrightarrow>
            result_at (process_data pfloat rows) [sex_key, wc, ''by_age'', ab, lift] = None) \<and>
         ((\<forall>l\<in>set LIFTS. length (data_values st sex_key wc ab l) < 30) \<longrightarrow>
            result_at (process_data pfloat rows) [sex_key, wc, ''by_age'', ab] = None) \<and>
         (\<forall>e. result_at (process_data pfloat rows) [sex_key, wc, ''by_age'', ab, lift] = Some e \<longrightarrow>
            jget e ''count'' = Some (JInt (int (length (data_values st sex_key wc ab lift)))))"
proof -
  have a: "result_at (process_data pfloat rows) [sex_key, wc, ''by_age'', ab] = None"
    if h: "\<forall>l\<in>set LIFTS. length (data_values st sex_key wc ab l) < 30"
  proof (rule ccontr)
    assume "result_at (process_data pfloat rows) [sex_key, wc, ''by_age'', ab] \<noteq> None"
    then obtain j where
      "result_at (process_data pfloat rows) (sex_key # wc # ''by_age'' # ab # []) = Some j"
      by auto
    from result_at_bracket[OF assms this] obtain bm m where
      bm: "data st sex_key wc = Some bm" "bm ab = Some m" and ne: "stats_list 30 m \<noteq> []"
      by blast
    have "data_values st sex_key wc ab l = dd_get m l []" for l
      by (simp add: data_values_def dd_get_def bm)
    with h have "stats_list 30 m = []" by (simp add: stats_list_empty)
    with ne show False by simp
  qed
  show ?thesis
    using result_at_by_age[OF assms, of wc ab lift] a
    by (cases "result_at (process_data pfloat rows) [sex_key, wc, ''by_age'', ab, lift]")
       (auto simp: jget_stat_entry)
qed

theorem by_age_min_sample_witness:
  "process_rows decimal_float init_agg (replicate 50 example_row) = Inr (example_agg 50) \<and>
   result_at (process_data decimal_float (replicate 50 example_row))
     [''male'', ''83'', ''by_age'', ''open'', ''squat''] \<noteq> None \<and>
   30 \<le> length (data_values (example_agg 50) ''male'' ''83'' ''open'' ''squat'') \<and>
   length (data_values (example_agg 50) ''male'' ''83'' ''masters_40'' ''squat'') < 30 \<and>
   length (data_values (example_agg 50) ''male'' ''83'' ''masters_40'' ''bench'') < 30 \<and>
   length (data_values (example_agg 50) ''male'' ''83'' ''masters_40'' ''deadlift'') < 30 \<and>
   result_at (process_data decimal_float (replicate 50 example_row))
     [''male'', ''83'', ''by_age'', ''masters_40''] = None"
proof -
  have s: "''male'' = ''male'' \<or> ''male'' = ''female''" by simp
  have a: "result_at (process_data decimal_float (replicate 50 example_row))
             [''male'', ''83'', ''by_age'', ''open'', ''squat''] \<noteq> None"
    by (simp add: result_at_50)
  have b: "\<forall>l\<in>set LIFTS.
             length (data_values (example_agg 50) ''male'' ''83'' ''masters_40'' l) < 30"
    by (simp add: values_example)
  have c: "30 \<le> length (data_values (example_agg 50) ''male'' ''83'' ''open'' ''squat'')"
    using by_age_min_sample[OF rows_50 s, of "''83''" "''open''" "''squat''"] a by blast
  have d: "result_at (process_data decimal_float (replicate 50 example_row))
             [''male'', ''83'', ''by_age'', ''masters_40''] = None"
    using by_age_min_sample[OF rows_50 s, of "''83''" "''masters_40''" "''squat''"] b by blast
  have b': "length (data_values (example_agg 50) ''male'' ''83'' ''masters_40'' l) < 30" for l
    by (simp add: values_example)
  show ?thesis
    by (intro conjI) (rule rows_50, rule a, rule c, rule b', rule b', rule b', rule d)
qed

text \<open>
  Claim C10. Every weight class present in the result has a non-empty
  \<^verbatim>\<open>all_ages\<close> mapping: a weight class in which no lift reaches 50 all-ages
  samples is absent from the result, whatever its age-bracket lists hold.
\<close>

theorem weight_class_needs_all_ages:
  assumes "process_rows pfloat init_agg rows = Inr st"
    and "sex_key = ''male'' \<or> sex_key = ''female''"
  shows "(\<forall>w. result_at (process_data pfloat rows) [sex_key, wc] = Some w \<longrightarrow>
            (\<exists>a. jget w ''all_ages'' = Some (JDict a) \<and> a \<noteq> [])) \<and>
         ((\<forall>l\<in>set LIFTS. length (all_ages_values st sex_key wc l) < 50) \<longrightarrow>
            result_at (process_data pfloat rows) [sex_key, wc] = None)"
proof (intro conjI allI impI)
  fix w
  assume "result_at (process_data pfloat rows) [sex_key, wc] = Some w"
  from result_at_wc[OF assms this]
  show "\<exists>a. jget w ''all_ages'' = Some (JDict a) \<and> a \<noteq> []" by auto
next
  assume h: "\<forall>l\<in>set LIFTS. length (all_ages_values st sex_key wc l) < 50"
  show "result_at (process_data pfloat rows) [sex_key, wc] = None"
  proof (rule ccontr)
    assume "result_at (process_data pfloat rows) [sex_key, wc] \<noteq> None"
    then obtain w where "result_at (process_data pfloat rows) (sex_key # wc # []) = Some w"
      by auto
    from result_at_wc[OF assms this] obtain m where
      m: "all_ages_data st sex_key wc = Some m" and ne: "stats_list 50 m \<noteq> []"
      by blast
    have "all_ages_values st sex_key wc l = dd_get m l []" for l
      by (simp add: all_ages_values_def dd_get_def m)
    with h have "stats_list 50 m = []" by (simp add: stats_list_empty)
    with ne show False by simp
  qed
qed

theorem weight_class_needs_all_ages_witness:
  "process_rows decimal_float init_agg (replicate 50 example_row) = Inr (example_agg 50) \<and>
   (\<exists>w a. result_at (process_data decimal_float (replicate 50 example_row))
           [''male'', ''83''] = Some w \<and> jget w ''all_ages'' = Some (JDict a) \<and> a \<noteq> []) \<and>
   process_rows decimal_float init_agg (replicate 30 example_row) = Inr (example_agg 30) \<and>
   length (all_ages_values (example_agg 30) ''male'' ''83'' ''squat'') < 50 \<and>
   length (all_ages_values (example_agg 30) ''male'' ''83'' ''bench'') < 50 \<and>
   length (all_ages_values (example_agg 30) ''male'' ''83'' ''deadlift'') < 50 \<and>
   30 \<le> length (data_values (example_agg 30) ''male'' ''83'' ''open'' ''squat'') \<and>
   result_at (process_data decimal_float (replicate 30 example_row)) [''male'', ''83''] = None"
proof -
  have s: "''male'' = ''male'' \<or> ''male'' = ''female''" by simp
  obtain w where w: "result_at (process_data decimal_float (replicate 50 example_row))
           [''male'', ''83''] = Some w"
    by (simp add: result_at_50)
  have a: "\<exists>w a. result_at (process_data decimal_float (replicate 50 example_row))
           [''male'', ''83''] = Some w \<and> jget w ''all_ages'' = Some (JDict a) \<and> a \<noteq> []"
    using weight_class_needs_all_ages[OF rows_50 s, of "''83''"] w by blast
  have b: "\<forall>l\<in>set LIFTS. length (all_ages_values (example_agg 30) ''male'' ''83'' l) < 50"
    by (simp add: values_example)
  have c: "30 \<le> length (data_values (example_agg 30) ''male'' ''83'' ''open'' ''squat'')"
    by (simp add: values_example)
  have d: "result_at (process_data decimal_float (replicate 30 example_row))
             [''male'', ''83''] = None"
    using weight_class_needs_all_ages[OF rows_30 s, of "''83''"] b by blast
  have b': "length (all_ages_values (example_agg 30) ''male'' ''83'' l) < 50" for l
    by (simp add: values_example)
  show ?thesis
    by (intro conjI)
       (rule rows_50, rule a, rule rows_30, rule b', rule b', rule b', rule c, rule d)
qed

text \<open>
  Claim C7. Every emitted lift statistic, under \<^verbatim>\<open>all_ages\<close> or under an age
  bracket, has a percentile entry for exactly the twelve percentiles 5, 10, 20, 30, 40, 50,
  60, 70, 80, 90, 95 and 99.
\<close>

theorem percentile_keys_exact:
  assumes "process_rows pfloat init_agg rows = Inr st"
    and "sex_key = ''male'' \<or> sex_key = ''female''"
    and "result_at (process_data pfloat rows) [sex_key, wc, ''all_ages'', lift] = Some e \<or>
         result_at (process_data pfloat rows) [sex_key, wc, ''by_age'', ab, lift] = Some e"
  shows "map_option jkeys (jget e ''percentiles'') =
           Some [''5'', ''10'', ''20'', ''30'', ''40'', ''50'', ''60'', ''70'', ''80'', ''90'',
                 ''95'', ''99'']"
  using assms(3) result_at_all_ages[OF assms(1,2), of wc lift e]
    result_at_by_age[OF assms(1,2), of wc ab lift e]
  by (auto simp: jget_stat_entry keys_percentile_entries)

theorem percentile_keys_exact_witness:
  "process_rows decimal_float init_agg (replicate 50 example_row) = Inr (example_agg 50) \<and>
   result_at (process_data decimal_float (replicate 50 example_row))
     [''male'', ''83'', ''all_ages'', ''squat''] = Some (stat_entry (replicate 50 200)) \<and>
   map_option jkeys (jget (stat_entry (replicate 50 200)) ''percentiles'') =
     Some [''5'', ''10'', ''20'', ''30'', ''40'', ''50'', ''60'', ''70'', ''80'', ''90'',
           ''95'', ''99'']"
proof -
  have s: "''male'' = ''male'' \<or> ''male'' = ''female''" by simp
  have a: "result_at (process_data decimal_float (replicate 50 example_row))
             [''male'', ''83'', ''all_ages'', ''squat''] = Some (stat_entry (replicate 50 200))"
    by (simp add: result_at_50)
  have c: "map_option jkeys (jget (stat_entry (replicate 50 200)) ''percentiles'') =
     Some [''5'', ''10'', ''20'', ''30'', ''40'', ''50'', ''60'', ''70'', ''80'', ''90'',
           ''95'', ''99'']"
    by (rule percentile_keys_exact[OF rows_50 s disjI1[OF a]])
  show ?thesis
    by (intro conjI) (rule rows_50, rule a, rule c)
qed

subsection \<open>The shape of the result\<close>




end
